theory Spec2Isabelle
  imports Main "HOL-Library.Sublist" "HOL-Library.AList"
begin

section \<open>Strings\<close>

text \<open>
  A JavaScript string is a sequence of UTF-16 code units. The model keeps the code units
  below 256 (Basic Latin and Latin-1), one \<^typ>\<open>char\<close> each, so that
  \<open>length\<close> counts what \<open>String.prototype.length\<close> counts. On these
  \<open>toLowerCase\<close> maps every code unit to one code unit, so a position in the lowered
  string is the same position in the string itself.

  Code units from 256 on are outside the model, and so is what \<open>toLowerCase\<close> does
  to them: it turns the one code unit \<open>U+0130\<close> into two, and an index that
  \<open>search\<close> finds in a lowered text of that kind need not be an index of the text it
  cuts the window from. Every statement below about a query and a text is a statement
  about strings of code units below 256.
\<close>

definition lower_code :: "nat \<Rightarrow> nat" where
  \<comment> \<open>the lower-case mapping of Unicode on the code points below 256\<close>
  "lower_code n =
     (if (65 \<le> n \<and> n \<le> 90) \<or> (192 \<le> n \<and> n \<le> 222 \<and> n \<noteq> 215) then n + 32 else n)"

definition upper_code :: "nat \<Rightarrow> nat" where
  \<comment> \<open>the simple upper-case mapping of Unicode on the code points below 256;
      \<open>0xFF\<close> and \<open>0xB5\<close> have their upper-case forms beyond Latin-1\<close>
  "upper_code n =
     (if (97 \<le> n \<and> n \<le> 122) \<or> (224 \<le> n \<and> n \<le> 254 \<and> n \<noteq> 247) then n - 32
      else if n = 255 then 376
      else if n = 181 then 924
      else n)"

definition toLowerCase_char :: "char \<Rightarrow> char" where
  "toLowerCase_char c = char_of (lower_code (of_char c))"

definition toLowerCase :: "string \<Rightarrow> string" where
  \<comment> \<open>\<open>String.prototype.toLowerCase\<close>\<close>
  "toLowerCase s = map toLowerCase_char s"

definition canonicalize :: "char \<Rightarrow> nat" where
  \<comment> \<open>what a regular expression with the \<open>i\<close> flag (and without \<open>u\<close>) compares:
      the code point of the upper-case form of a character\<close>
  "canonicalize c = upper_code (of_char c)"

definition is_space :: "char \<Rightarrow> bool" where
  \<comment> \<open>white space and line terminators, as \<open>trim\<close> strips them: TAB, LF, VT, FF, CR,
      SP and NBSP\<close>
  "is_space c = ((of_char c :: nat) \<in> set [9, 10, 11, 12, 13, 32, 160])"

definition trim :: "string \<Rightarrow> string" where
  \<comment> \<open>\<open>String.prototype.trim\<close>\<close>
  "trim s = rev (dropWhile is_space (rev (dropWhile is_space s)))"

definition substring :: "string \<Rightarrow> int \<Rightarrow> int \<Rightarrow> string" where
  \<comment> \<open>\<open>String.prototype.substring\<close>: both indices are clamped to the string and
      swapped when they come in the wrong order\<close>
  "substring s a b =
     (let n = int (length s);
          a' = min (max a 0) n;
          b' = min (max b 0) n;
          lo = min a' b';
          hi = max a' b'
      in take (nat (hi - lo)) (drop (nat lo) s))"

fun indexOf :: "string \<Rightarrow> string \<Rightarrow> int" where
  \<comment> \<open>\<open>String.prototype.indexOf\<close>: the first index where \<open>w\<close> starts, \<open>-1\<close> when
      there is none\<close>
  "indexOf [] w = (if w = [] then 0 else - 1)"
| "indexOf (c # cs) w =
     (if prefix w (c # cs) then 0
      else (let r = indexOf cs w in if r = - 1 then - 1 else r + 1))"

fun split_on :: "char \<Rightarrow> string \<Rightarrow> string list" where
  \<comment> \<open>\<open>String.prototype.split\<close> with a one-character separator\<close>
  "split_on d [] = [[]]"
| "split_on d (c # cs) =
     (if c = d then [] # split_on d cs
      else (case split_on d cs of
              [] \<Rightarrow> [[c]]
            | w # ws \<Rightarrow> (c # w) # ws))"

section \<open>The search: \<open>Buscador\<close>\<close>

subsection \<open>Escaping the query and the pattern it gives\<close>

definition backslash :: char where
  "backslash = CHR 0x5C"

definition escaped_chars :: string where
  \<comment> \<open>the character class of \<open>escapeRegExp\<close>\<close>
  "escaped_chars = ''.*+?^${}()|[]'' @ [backslash]"

definition escapeRegExp :: "string \<Rightarrow> string" where
  \<comment> \<open>\<open>string.replace(/[.*+?^${}()|[\]\\]/g, '\\$&')\<close>: a backslash before every
      character of the class\<close>
  "escapeRegExp s = concat (map (\<lambda>c. if c \<in> set escaped_chars then [backslash, c] else [c]) s)"

text \<open>
  The source text of a regular expression, read as the pattern grammar of ECMAScript reads
  it: the syntax characters \<open>^ $ \ . * + ? ( ) [ ] { } |\<close> are operators unless a
  backslash precedes them, a backslash before a syntax character denotes that character,
  any other escape has a meaning of its own, and every other character denotes itself.
  A pattern that ends in a lone backslash is a syntax error.
\<close>

definition syntax_chars :: string where
  "syntax_chars = ''^$'' @ [backslash] @ ''.*+?()[]{}|''"

datatype token = Lit char | Esc char | Op char

fun tokens :: "string \<Rightarrow> token list option" where
  "tokens [] = Some []"
| "tokens [c] =
     (if c = backslash then None
      else Some [if c \<in> set syntax_chars then Op c else Lit c])"
| "tokens (c # d # ds) =
     (if c = backslash
      then map_option (Cons (if d \<in> set syntax_chars then Lit d else Esc d)) (tokens ds)
      else map_option (Cons (if c \<in> set syntax_chars then Op c else Lit c)) (tokens (d # ds)))"

fun lit_of :: "token \<Rightarrow> char option" where
  "lit_of (Lit c) = Some c"
| "lit_of (Esc c) = None"
| "lit_of (Op c) = None"

fun lits_of :: "token list \<Rightarrow> string option" where
  "lits_of [] = Some []"
| "lits_of (t # ts) =
     (case lit_of t of
        None \<Rightarrow> None
      | Some c \<Rightarrow> map_option (Cons c) (lits_of ts))"

definition literal_group :: "token list \<Rightarrow> string option" where
  \<comment> \<open>the word \<open>w\<close> when the pattern is one capturing group around the literal
      characters of \<open>w\<close>, and \<open>None\<close> for every other pattern\<close>
  "literal_group ts =
     (case ts of
        [] \<Rightarrow> None
      | t # rest \<Rightarrow>
          if t = Op CHR ''('' \<and> rest \<noteq> [] \<and> last rest = Op CHR '')''
          then lits_of (butlast rest) else None)"

fun mark_all :: "string \<Rightarrow> string \<Rightarrow> string" where
  \<comment> \<open>\<open>s.replace(re, '<mark>$1</mark>')\<close> for a global, case-insensitive \<open>re\<close> that is
      one group around the literal word \<open>w\<close>: the scan goes left to right and resumes
      after each match; an empty word matches before every character and at the end\<close>
  "mark_all w [] = (if w = [] then ''<mark></mark>'' else [])"
| "mark_all w (c # cs) =
     (if w = [] then ''<mark></mark>'' @ c # mark_all w cs
      else if map canonicalize w = map canonicalize (take (length w) (c # cs))
      then ''<mark>'' @ take (length w) (c # cs) @ ''</mark>''
             @ mark_all w (drop (length w) (c # cs))
      else c # mark_all w cs)"

definition replace_marking :: "string \<Rightarrow> string \<Rightarrow> string option" where
  \<comment> \<open>\<open>subject.replace(new RegExp(source, 'ig'), '<mark>$1</mark>')\<close> for the sources
      that are one group around literal characters; \<open>None\<close> for a source that is a
      syntax error or in which an operator is at work\<close>
  "replace_marking source subject =
     (case tokens source of
        None \<Rightarrow> None
      | Some ts \<Rightarrow> map_option (\<lambda>w. mark_all w subject) (literal_group ts))"

definition pattern_source :: "string \<Rightarrow> string" where
  \<comment> \<open>\<open>'(' + this.escapeRegExp(q) + ')'\<close>\<close>
  "pattern_source q = ''('' @ escapeRegExp q @ '')''"

subsection \<open>The snippet of one page\<close>

datatype match = NoMatch | Snippet string

definition snippet_window :: "string \<Rightarrow> int \<Rightarrow> string" where
  \<comment> \<open>\<open>(plain || '').substring(start, end).trim()\<close>\<close>
  "snippet_window plain idx =
     (let start = max 0 (idx - 80);
          end = min (int (length plain)) (idx + 80)
      in trim (substring plain start end))"

definition snippet_of :: "string \<Rightarrow> string \<Rightarrow> match option" where
  \<comment> \<open>lines 281 to 293 of \<open>search\<close>, for the query \<open>q\<close> and the plain text of a page;
      \<open>None\<close> only where \<open>replace_marking\<close> is\<close>
  "snippet_of q plain =
     (let qLower = toLowerCase q;
          idx = indexOf (toLowerCase plain) qLower
      in if idx \<noteq> - 1
         then map_option Snippet (replace_marking (pattern_source q) (snippet_window plain idx))
         else Some NoMatch)"

subsection \<open>The result list\<close>

record result =
  file' :: "string option"
  snippet :: string

definition file_at :: "string list \<Rightarrow> nat \<Rightarrow> string option" where
  \<comment> \<open>\<open>this.files[i]\<close>, \<open>None\<close> for \<open>undefined\<close>\<close>
  "file_at files i = (if i < length files then Some (files ! i) else None)"

text \<open>
  \<open>texts.forEach((text, i) => ...)\<close>, lines 265 to 297. What \<open>DOMParser\<close>,
  \<open>window.i18n.translate\<close> and \<open>body.textContent\<close> make of the text of a page is the
  parameter \<open>extract\<close>.
\<close>

fun collect ::
  "string list \<Rightarrow> (string \<Rightarrow> string) \<Rightarrow> string \<Rightarrow> nat \<Rightarrow> string list \<Rightarrow> result list
     \<Rightarrow> result list option" where
  "collect files extract q i [] results = Some results"
| "collect files extract q i (text # rest) results =
     (if text = [] then collect files extract q (Suc i) rest results
      else (case snippet_of q (extract text) of
              None \<Rightarrow> None
            | Some NoMatch \<Rightarrow> collect files extract q (Suc i) rest results
            | Some (Snippet s) \<Rightarrow>
                collect files extract q (Suc i) rest
                  (results @ [\<lparr>file' = file_at files i, snippet = s\<rparr>])))"

definition search_results ::
  "string list \<Rightarrow> (string \<Rightarrow> string) \<Rightarrow> string \<Rightarrow> string list \<Rightarrow> result list option" where
  "search_results files extract q texts = collect files extract q 0 texts []"

subsection \<open>Fetching the pages\<close>

datatype jsval =
    JUndefined
  | JNull
  | JBool bool
  | JNum int
  | JStr string
  | JArr "jsval list"
  | JObj "(string \<times> jsval) list"
  | JFun string

datatype js_error = TypeError string | SyntaxError string | Error string

record response =
  ok :: bool
  status :: nat
  body_text :: "js_error + string"
  body_json :: "js_error + jsval"

text \<open>
  What \<open>fetch(url)\<close> settles to: rejected (the request did not complete), or resolved
  with a response, whatever its status. \<open>body_text\<close> and \<open>body_json\<close> are what
  \<open>response.text()\<close> and \<open>response.json()\<close> settle to.
\<close>

datatype fetch_result = Rejected js_error | Resolved response

type_synonym network = "string \<Rightarrow> fetch_result"

definition then_text :: "fetch_result \<Rightarrow> js_error + string" where
  \<comment> \<open>\<open>fetch(f).then(r => r.text())\<close>\<close>
  "then_text p = (case p of Rejected e \<Rightarrow> Inl e | Resolved r \<Rightarrow> body_text r)"

definition catch_empty :: "js_error + string \<Rightarrow> js_error + string" where
  \<comment> \<open>\<open>.catch(() => '')\<close>\<close>
  "catch_empty p = (case p of Inl e \<Rightarrow> Inr [] | Inr s \<Rightarrow> Inr s)"

fun promise_all :: "(js_error + 'a) list \<Rightarrow> js_error + 'a list" where
  \<comment> \<open>\<open>Promise.all\<close>: the values in the order of the promises, or a rejection\<close>
  "promise_all [] = Inr []"
| "promise_all (p # ps) =
     (case p of
        Inl e \<Rightarrow> Inl e
      | Inr v \<Rightarrow> (case promise_all ps of Inl e \<Rightarrow> Inl e | Inr vs \<Rightarrow> Inr (v # vs)))"

definition fetchFiles :: "network \<Rightarrow> string list \<Rightarrow> js_error + string list" where
  "fetchFiles net files = promise_all (map (\<lambda>f. catch_empty (then_text (net f))) files)"

subsection \<open>Rendering\<close>

datatype node = Element string "(string \<times> string) list" "node list" | Text string

fun first_tagged :: "string \<Rightarrow> node list \<Rightarrow> node option" where
  \<comment> \<open>\<open>querySelector(tag)\<close> among the descendants, in document order\<close>
  "first_tagged tag [] = None"
| "first_tagged tag (Text s # ns) = first_tagged tag ns"
| "first_tagged tag (Element t attrs cs # ns) =
     (if t = tag then Some (Element t attrs cs)
      else (case first_tagged tag cs of
              Some n \<Rightarrow> Some n
            | None \<Rightarrow> first_tagged tag ns))"

fun remove_children :: "node list \<Rightarrow> node list" where
  \<comment> \<open>\<open>while (el.firstChild) el.removeChild(el.firstChild)\<close>\<close>
  "remove_children [] = []"
| "remove_children (c # cs) = remove_children cs"

text \<open>
  \<open>this.resultsEl\<close> is modelled by the list of its children, \<open>None\<close> when the element
  is \<open>null\<close>.
\<close>

definition clearResultsEl :: "node list option \<Rightarrow> node list option" where
  "clearResultsEl resultsEl =
     (case resultsEl of
        None \<Rightarrow> None
      | Some children \<Rightarrow>
          (let h2 = first_tagged ''h2'' children;
               emptied = remove_children children
           in Some (case h2 of None \<Rightarrow> emptied | Some h \<Rightarrow> h # emptied)))"

definition text_content :: "string \<Rightarrow> node list" where
  \<comment> \<open>the children \<open>el.textContent = s\<close> leaves\<close>
  "text_content s = (if s = [] then [] else [Text s])"

definition message :: "(string \<Rightarrow> string) option \<Rightarrow> string \<Rightarrow> string \<Rightarrow> string" where
  \<comment> \<open>\<open>(window.i18n && typeof window.i18n.t === 'function') ? window.i18n.t(key) : dflt\<close>;
      the first argument is \<open>window.i18n.t\<close> as the page displays what it returns, \<open>None\<close>
      when there is none\<close>
  "message tr key dflt = (case tr of Some t \<Rightarrow> t key | None \<Rightarrow> dflt)"

definition empty_query_default :: string where
  "empty_query_default =
     ''Introduce un t'' @ [CHR 0xE9] @ ''rmino de b'' @ [CHR 0xFA] @ ''squeda en el campo superior.''"

definition no_results_default :: string where
  "no_results_default = ''No se han encontrado coincidencias.''"

definition renderNoQuery :: "(string \<Rightarrow> string) option \<Rightarrow> node list option \<Rightarrow> node list option" where
  "renderNoQuery tr resultsEl =
     (case resultsEl of
        None \<Rightarrow> None
      | Some children \<Rightarrow>
          Some (children @
            [Element ''p'' [] (text_content (message tr ''search.empty_query'' empty_query_default))]))"

definition renderNoResults :: "(string \<Rightarrow> string) option \<Rightarrow> node list option \<Rightarrow> node list option" where
  "renderNoResults tr resultsEl =
     (case clearResultsEl resultsEl of
        None \<Rightarrow> None
      | Some children \<Rightarrow>
          Some (children @
            [Element ''p'' [] (text_content (message tr ''search.no_results'' no_results_default))]))"

definition result_article :: "(string \<Rightarrow> node list) \<Rightarrow> result \<Rightarrow> node" where
  \<comment> \<open>the \<open>article\<close> of one result; \<open>parse\<close> is what setting \<open>innerHTML\<close> makes of
      a string. A \<open>file\<close> that is \<open>undefined\<close> gives the \<open>href\<close> \<open>undefined\<close> and no
      text.\<close>
  "result_article parse r =
     Element ''article'' [(''data-result'', ''true'')]
       [Element ''h3'' []
          [Element ''a'' [(''href'', case file' r of Some f \<Rightarrow> f | None \<Rightarrow> ''undefined'')]
             (text_content (case file' r of Some f \<Rightarrow> f | None \<Rightarrow> []))],
        Element ''p'' [] (parse (''...'' @ snippet r @ ''...''))]"

definition renderResults ::
  "(string \<Rightarrow> node list) \<Rightarrow> result list \<Rightarrow> node list option \<Rightarrow> node list option" where
  "renderResults parse results resultsEl =
     (case clearResultsEl resultsEl of
        None \<Rightarrow> None
      | Some children \<Rightarrow> Some (children @ map (result_article parse) results))"

subsection \<open>The guard around the search\<close>

text \<open>
  The page as \<open>run\<close> touches it: the children of \<open>this.resultsEl\<close> and what was
  written with \<open>console.error\<close>. A computation on the page returns, or throws with the
  page as it was left.
\<close>

record page =
  resultsEl :: "node list option"
  console :: "(string \<times> js_error) list"

datatype outcome = Returned page | Threw js_error page

definition run :: "(page \<Rightarrow> outcome) \<Rightarrow> page \<Rightarrow> outcome" where
  \<comment> \<open>\<open>run\<close> of the class that starts itself (lines 310 to 316), around any \<open>search\<close>\<close>
  "run search pg =
     (case search pg of
        Returned pg' \<Rightarrow> Returned pg'
      | Threw e pg' \<Rightarrow> Returned (pg'\<lparr>console := console pg' @ [(''Buscador error:'', e)]\<rparr>))"

definition error_paragraph :: "node list" where
  \<comment> \<open>what \<open>innerHTML = '<p>Error al buscar. Revisa la consola.</p>'\<close> leaves\<close>
  "error_paragraph = [Element ''p'' [] [Text ''Error al buscar. Revisa la consola.'']]"

definition run_module :: "(page \<Rightarrow> outcome) \<Rightarrow> page \<Rightarrow> outcome" where
  \<comment> \<open>\<open>run\<close> of the class that is exported as a module (lines 438 to 445)\<close>
  "run_module search pg =
     (case search pg of
        Returned pg' \<Rightarrow> Returned pg'
      | Threw e pg' \<Rightarrow>
          Returned (pg'\<lparr>console := console pg' @ [(''Buscador error:'', e)],
                       resultsEl := (case resultsEl pg' of
                                       None \<Rightarrow> None
                                     | Some children \<Rightarrow> Some error_paragraph)\<rparr>))"

section \<open>Translations: \<open>I18n\<close>\<close>

text \<open>
  A translation table is what \<open>JSON.parse\<close> gives: \<^typ>\<open>jsval\<close>, an object being the
  list of its own properties. Numbers matter only through being zero or not. What lies
  beyond the own properties of an object is the host's, and is a parameter of the
  functions below:
  \<^item> \<open>inh\<close> is what an object made by \<open>JSON.parse\<close> or by \<open>{}\<close> inherits under a
    name, \<open>JUndefined\<close> where there is nothing. It is a value: the prototype of such
    an object is \<open>Object.prototype\<close>, which has methods and the accessor
    \<open>__proto__\<close>, none of which throws when read.
  \<^item> \<open>rd\<close> is the reading of a property of any other value that has properties: a
    string, a number, a boolean, an array or a function the host has lent. Such a
    reading can throw: \<open>caller\<close> and \<open>arguments\<close> of \<open>Function.prototype\<close> are
    accessors that throw a \<open>TypeError\<close>.
\<close>

type_synonym inherited = "jsval \<Rightarrow> string \<Rightarrow> jsval"

type_synonym property_read = "jsval \<Rightarrow> string \<Rightarrow> js_error + jsval"

fun truthy :: "jsval \<Rightarrow> bool" where
  "truthy JUndefined = False"
| "truthy JNull = False"
| "truthy (JBool b) = b"
| "truthy (JNum n) = (n \<noteq> 0)"
| "truthy (JStr s) = (s \<noteq> [])"
| "truthy (JArr xs) = True"
| "truthy (JObj kvs) = True"
| "truthy (JFun f) = True"

definition obj_get :: "inherited \<Rightarrow> (string \<times> jsval) list \<Rightarrow> string \<Rightarrow> jsval" where
  \<comment> \<open>\<open>obj[k]\<close> for an object\<close>
  "obj_get inh kvs k = (case map_of kvs k of Some v \<Rightarrow> v | None \<Rightarrow> inh (JObj kvs) k)"

fun get_prop :: "inherited \<Rightarrow> property_read \<Rightarrow> jsval \<Rightarrow> string \<Rightarrow> js_error + jsval" where
  \<comment> \<open>\<open>v[k]\<close> for any value: reading a property of \<open>undefined\<close> or \<open>null\<close> throws,
      and so may the reading of a property of a value that is no plain object\<close>
  "get_prop inh rd JUndefined k = Inl (TypeError ''Cannot read properties of undefined'')"
| "get_prop inh rd JNull k = Inl (TypeError ''Cannot read properties of null'')"
| "get_prop inh rd (JObj kvs) k = Inr (obj_get inh kvs k)"
| "get_prop inh rd v k = rd v k"

record i18n =
  currentLanguage :: string
  translation_cache :: "(string \<times> jsval) list"
  supportedLanguages :: "string list"

record browser =
  localStorage :: "(string \<times> string) list"
  navigator_language :: string
  document_lang :: string
  requests :: "string list"
  errors_logged :: "js_error list"

definition getStoredLanguage :: "browser \<Rightarrow> string" where
  \<comment> \<open>\<open>localStorage.getItem('language') || navigator.language.split('-')[0]\<close>\<close>
  "getStoredLanguage br =
     (let stored = map_of (localStorage br) ''language'';
          nav = (case split_on CHR ''-'' (navigator_language br) of [] \<Rightarrow> [] | w # ws \<Rightarrow> w)
      in case stored of
           None \<Rightarrow> nav
         | Some s \<Rightarrow> if s \<noteq> [] then s else nav)"

definition new_I18n :: "browser \<Rightarrow> i18n" where
  \<comment> \<open>the constructor\<close>
  "new_I18n br =
     \<lparr>currentLanguage = (let s = getStoredLanguage br in if s \<noteq> [] then s else ''es''),
      translation_cache = [],
      supportedLanguages = [''es'', ''en'']\<rparr>"

definition setLanguage :: "browser \<times> i18n \<Rightarrow> string \<Rightarrow> bool \<times> browser \<times> i18n" where
  "setLanguage w lang =
     (case w of (br, st) \<Rightarrow>
        if lang \<in> set (supportedLanguages st)
        then (True,
              br\<lparr>localStorage := AList.update ''language'' lang (localStorage br),
                 document_lang := lang\<rparr>,
              st\<lparr>currentLanguage := lang\<rparr>)
        else (False, br, st))"

definition translations_url :: "string \<Rightarrow> string" where
  "translations_url lang = ''i18n/'' @ lang @ ''.json''"

definition fetch_table :: "network \<Rightarrow> string \<Rightarrow> js_error + jsval" where
  \<comment> \<open>the body of the \<open>try\<close> of \<open>loadTranslations\<close>: the value to cache, or what is
      thrown\<close>
  "fetch_table net lang =
     (case net (translations_url lang) of
        Rejected e \<Rightarrow> Inl e
      | Resolved response \<Rightarrow>
          if \<not> ok response then Inl (Error (''Failed to load '' @ lang @ ''.json''))
          else body_json response)"

definition loadTranslations ::
  "inherited \<Rightarrow> network \<Rightarrow> browser \<times> i18n \<Rightarrow> string \<Rightarrow> js_error + browser \<times> i18n" where
  "loadTranslations inh net w lang =
     (case w of (br, st) \<Rightarrow>
        if truthy (obj_get inh (translation_cache st) lang) then Inr (br, st)
        else
          (let br' = br\<lparr>requests := requests br @ [translations_url lang]\<rparr>
           in case fetch_table net lang of
                Inr table \<Rightarrow>
                  Inr (br', st\<lparr>translation_cache := AList.update lang table (translation_cache st)\<rparr>)
              | Inl e \<Rightarrow>
                  Inr (br'\<lparr>errors_logged := errors_logged br' @ [e]\<rparr>,
                       st\<lparr>translation_cache := AList.update lang (JObj []) (translation_cache st)\<rparr>)))"

fun walk ::
  "inherited \<Rightarrow> property_read \<Rightarrow> string \<Rightarrow> jsval \<Rightarrow> string list \<Rightarrow> js_error + jsval" where
  \<comment> \<open>the loop of \<open>t\<close> over the segments that are left\<close>
  "walk inh rd key obj [] = Inr obj"
| "walk inh rd key obj (k # ks) =
     (case get_prop inh rd obj k of
        Inl e \<Rightarrow> Inl e
      | Inr obj' \<Rightarrow> if \<not> truthy obj' then Inr (JStr key) else walk inh rd key obj' ks)"

definition current_table :: "inherited \<Rightarrow> i18n \<Rightarrow> jsval" where
  \<comment> \<open>\<open>this.translations[this.currentLanguage] || {}\<close>\<close>
  "current_table inh st =
     (let table = obj_get inh (translation_cache st) (currentLanguage st)
      in if truthy table then table else JObj [])"

definition t :: "inherited \<Rightarrow> property_read \<Rightarrow> i18n \<Rightarrow> string \<Rightarrow> js_error + jsval" where
  "t inh rd st key = walk inh rd key (current_table inh st) (split_on CHR ''.'' key)"

section \<open>What the claims are measured against\<close>

subsection \<open>Occurrences of the query\<close>

text \<open>
  The words of the specification, written down on their own: an occurrence of the query,
  ignoring case, the positions of all of them in a window, the positions a scan from the
  left keeps when it resumes after each occurrence it has taken, and a window with the
  words at given positions put between \<open><mark>\<close> and \<open></mark>\<close>.
\<close>

definition occurs_at :: "string \<Rightarrow> string \<Rightarrow> nat \<Rightarrow> bool" where
  "occurs_at q w i = (toLowerCase (take (length q) (drop i w)) = toLowerCase q)"






definition regex_accepts :: "string \<Rightarrow> string \<Rightarrow> bool option" where
  \<comment> \<open>whether the case-insensitive regular expression of this source matches the whole
      of \<open>x\<close>, for the sources \<open>replace_marking\<close> covers\<close>
  "regex_accepts source x =
     (case tokens source of
        None \<Rightarrow> None
      | Some ts \<Rightarrow> map_option (\<lambda>w. map canonicalize w = map canonicalize x) (literal_group ts))"

definition has_occurrence :: "string \<Rightarrow> string \<Rightarrow> bool" where
  \<comment> \<open>the text has an occurrence of the query, ignoring case\<close>
  "has_occurrence q w = list_ex (occurs_at q w) [0..<Suc (length w)]"

definition matching_pages :: "(string \<Rightarrow> string) \<Rightarrow> string \<Rightarrow> string list \<Rightarrow> nat list" where
  \<comment> \<open>the positions, in the order of the page list, of the pages that were fetched and
      whose plain text has an occurrence of the query\<close>
  "matching_pages extract q texts =
     filter (\<lambda>i. texts ! i \<noteq> [] \<and> has_occurrence q (extract (texts ! i))) [0..<length texts]"

subsection \<open>Tables and fetches\<close>

fun resolve :: "jsval \<Rightarrow> string list \<Rightarrow> jsval option" where
  \<comment> \<open>every segment of a path resolves in a table, each being an own property of the
      table the path has reached\<close>
  "resolve v [] = Some v"
| "resolve (JObj kvs) (k # ks) =
     (case map_of kvs k of
        None \<Rightarrow> None
      | Some v \<Rightarrow> resolve v ks)"
| "resolve v (k # ks) = None"

fun first_missing :: "jsval \<Rightarrow> string list \<Rightarrow> (jsval \<times> string) option" where
  \<comment> \<open>where a path stops resolving: the value it has reached and the segment that is
      no own property of it; \<open>None\<close> when every segment resolves\<close>
  "first_missing v [] = None"
| "first_missing (JObj kvs) (k # ks) =
     (case map_of kvs k of
        None \<Rightarrow> Some (JObj kvs, k)
      | Some v \<Rightarrow> first_missing v ks)"
| "first_missing v (k # ks) = Some (v, k)"

definition failed_fetch :: "fetch_result \<Rightarrow> bool" where
  \<comment> \<open>a fetch that fails, or a response that is not ok\<close>
  "failed_fetch p = (case p of Rejected e \<Rightarrow> True | Resolved r \<Rightarrow> \<not> ok r)"

section \<open>Sample inputs\<close>

definition quoted :: "string \<Rightarrow> string" where
  "quoted s = CHR 0x22 # s @ [CHR 0x22]"

definition site :: network where
  \<comment> \<open>a site that serves \<open>index.html\<close> and the Spanish table, cannot be reached for
      \<open>caida.html\<close> and answers 404, with an error page, for everything else\<close>
  "site url =
     (if url = ''index.html''
      then Resolved \<lparr>ok = True, status = 200, body_text = Inr ''<p>Hola</p>'',
                     body_json = Inl (SyntaxError ''Unexpected token <'')\<rparr>
      else if url = ''i18n/es.json''
      then Resolved \<lparr>ok = True, status = 200,
                     body_text = Inr (''{'' @ quoted ''saludo'' @ '':'' @ quoted ''Hola'' @ ''}''),
                     body_json = Inr (JObj [(''saludo'', JStr ''Hola'')])\<rparr>
      else if url = ''caida.html''
      then Rejected (TypeError ''Failed to fetch'')
      else Resolved \<lparr>ok = False, status = 404, body_text = Inr ''<h1>Not Found</h1>'',
                      body_json = Inl (SyntaxError ''Unexpected token <'')\<rparr>)"

definition french_browser :: browser where
  \<comment> \<open>no stored preference, a French locale\<close>
  "french_browser =
     \<lparr>localStorage = [], navigator_language = ''fr-FR'', document_lang = [],
      requests = [], errors_logged = []\<rparr>"

definition spanish_tables :: i18n where
  \<comment> \<open>the Spanish table loaded, with one translation set to the empty string\<close>
  "spanish_tables =
     \<lparr>currentLanguage = ''es'',
      translation_cache =
        [(''es'', JObj [(''search'', JObj [(''no_results'', JStr []),
                                           (''empty_query'', JStr ''Escribe algo'')])])],
      supportedLanguages = [''es'', ''en'']\<rparr>"

definition heading :: node where
  "heading = Element ''h2'' [] [Text ''Resultados'']"

definition old_output :: node where
  "old_output = Element ''p'' [] [Text ''No se han encontrado coincidencias.'']"

definition failing_search :: "page \<Rightarrow> outcome" where
  \<comment> \<open>a search that throws before it renders, as \<open>document.querySelector\<close> does on
      an \<open>inputSelector\<close> that is not a selector\<close>
  "failing_search pg = Threw (SyntaxError ''not a valid selector'') pg"

definition no_inherited :: inherited where
  \<comment> \<open>a host that lends nothing\<close>
  "no_inherited v k = JUndefined"

definition no_properties :: property_read where
  \<comment> \<open>a host in which the values that are no plain objects have no property\<close>
  "no_properties v k = Inr JUndefined"

definition lends_constructor :: inherited where
  \<comment> \<open>a host as far as the name \<open>constructor\<close> goes: every plain object inherits the
      function \<open>Object\<close> under it\<close>
  "lends_constructor v k = (if k = ''constructor'' then JFun ''Object'' else JUndefined)"

definition restricted_reads :: property_read where
  \<comment> \<open>a host as far as the names \<open>caller\<close> and \<open>arguments\<close> go: read of a function
      they throw\<close>
  "restricted_reads v k =
     (case v of
        JFun f \<Rightarrow>
          if k = ''caller'' \<or> k = ''arguments''
          then Inl (TypeError ''caller and arguments may not be accessed'')
          else Inr JUndefined
      | _ \<Rightarrow> Inr JUndefined)"

section \<open>Properties of the strings and of the pattern\<close>

lemma lower_code_lt: "n < 256 \<Longrightarrow> lower_code n < 256"
  by (auto simp: lower_code_def)

lemma upper_lower: "n < 256 \<Longrightarrow> upper_code (lower_code n) = upper_code n"
  by (auto simp: lower_code_def upper_code_def)

lemma lower_upper:
  "n < 256 \<Longrightarrow>
     (let u = upper_code n
      in if u = 376 then 255 else if u = 924 then 181 else lower_code u) = lower_code n"
  by (auto simp: lower_code_def upper_code_def Let_def)

lemma of_char_toLowerCase_char: "(of_char (toLowerCase_char c) :: nat) = lower_code (of_char c)"
  by (simp add: toLowerCase_char_def lower_code_lt)

lemma canonicalize_eq_iff:
  "canonicalize a = canonicalize b \<longleftrightarrow> toLowerCase_char a = toLowerCase_char b"
proof
  assume "canonicalize a = canonicalize b"
  then have "upper_code (of_char a) = upper_code (of_char b)"
    by (simp add: canonicalize_def)
  then have "lower_code (of_char a) = lower_code (of_char b)"
    using lower_upper [of "of_char a"] lower_upper [of "of_char b"] by (simp add: Let_def)
  then show "toLowerCase_char a = toLowerCase_char b"
    by (simp add: toLowerCase_char_def)
next
  assume "toLowerCase_char a = toLowerCase_char b"
  then have "(of_char (toLowerCase_char a) :: nat) = of_char (toLowerCase_char b)"
    by simp
  then have "lower_code (of_char a) = lower_code (of_char b)"
    by (simp only: of_char_toLowerCase_char)
  then show "canonicalize a = canonicalize b"
    using upper_lower [of "of_char a"] upper_lower [of "of_char b"]
    by (simp add: canonicalize_def)
qed

lemma map_canonicalize_eq_iff:
  "map canonicalize xs = map canonicalize ys \<longleftrightarrow> toLowerCase xs = toLowerCase ys"
proof (induction xs arbitrary: ys)
  case Nil
  then show ?case by (simp add: toLowerCase_def)
next
  case (Cons x xs)
  then show ?case
    by (cases ys) (auto simp: toLowerCase_def canonicalize_eq_iff)
qed

lemma set_escaped_chars: "set escaped_chars = set syntax_chars"
  by (auto simp: escaped_chars_def syntax_chars_def)

lemma backslash_syntax: "backslash \<in> set syntax_chars"
  by (simp add: syntax_chars_def)

lemma tokens_plain:
  "c \<noteq> backslash \<Longrightarrow>
     tokens (c # r) = map_option (Cons (if c \<in> set syntax_chars then Op c else Lit c)) (tokens r)"
  by (cases r) simp_all

lemma tokens_escaped:
  "tokens (backslash # d # r) =
     map_option (Cons (if d \<in> set syntax_chars then Lit d else Esc d)) (tokens r)"
  by simp

lemma tokens_escapeRegExp_append:
  "tokens (escapeRegExp q @ r) = map_option (\<lambda>ts. map Lit q @ ts) (tokens r)"
proof (induction q)
  case Nil
  show ?case by (simp add: escapeRegExp_def option.map_ident)
next
  case (Cons c q)
  have step: "escapeRegExp (c # q) = (if c \<in> set syntax_chars then [backslash, c] else [c]) @ escapeRegExp q"
    by (simp add: escapeRegExp_def set_escaped_chars)
  show ?case
  proof (cases "c \<in> set syntax_chars")
    case True
    then show ?thesis
      using Cons.IH by (simp add: step tokens_escaped option.map_comp comp_def del: tokens.simps)
  next
    case False
    then have "c \<noteq> backslash" using backslash_syntax by auto
    then show ?thesis
      using Cons.IH False by (simp add: step tokens_plain option.map_comp comp_def del: tokens.simps)
  qed
qed

lemma tokens_escapeRegExp: "tokens (escapeRegExp q) = Some (map Lit q)"
  using tokens_escapeRegExp_append [of q "[]"] by simp

lemma tokens_pattern_source:
  "tokens (pattern_source q) = Some (Op CHR ''('' # map Lit q @ [Op CHR '')''])"
proof -
  have open_paren: "CHR ''('' \<noteq> backslash" "CHR ''('' \<in> set syntax_chars"
    by (simp_all add: backslash_def syntax_chars_def)
  have close_paren: "tokens '')'' = Some [Op CHR '')'']"
    by (simp add: backslash_def syntax_chars_def)
  show ?thesis
    unfolding pattern_source_def
    using tokens_plain [OF open_paren(1), of "escapeRegExp q @ '')''"] open_paren(2)
    by (simp add: tokens_escapeRegExp_append close_paren del: tokens.simps)
qed

lemma lits_of_map_Lit: "lits_of (map Lit q) = Some q"
  by (induction q) simp_all

lemma literal_group_pattern:
  "literal_group (Op CHR ''('' # map Lit q @ [Op CHR '')'']) = Some q"
  by (simp add: literal_group_def lits_of_map_Lit butlast_append)

lemma replace_marking_pattern_source:
  "replace_marking (pattern_source q) s = Some (mark_all q s)"
  by (simp add: replace_marking_def tokens_pattern_source literal_group_pattern)

lemma regex_accepts_pattern_source:
  "regex_accepts (pattern_source q) x = Some (toLowerCase q = toLowerCase x)"
  by (simp add: regex_accepts_def tokens_pattern_source literal_group_pattern
      map_canonicalize_eq_iff)

subsection \<open>The scan of the replacement against the positions of the occurrences\<close>

lemma toLowerCase_take_drop:
  "toLowerCase (take n (drop i w)) = take n (drop i (toLowerCase w))"
  by (simp add: toLowerCase_def take_map drop_map)

lemma length_toLowerCase: "length (toLowerCase s) = length s"
  by (simp add: toLowerCase_def)

lemma prefix_iff_take: "prefix w s \<longleftrightarrow> take (length w) s = w"
  by (metis append_eq_conv_conj prefix_def append_take_drop_id)

lemma occurs_at_prefix:
  "occurs_at q w i \<longleftrightarrow> prefix (toLowerCase q) (drop i (toLowerCase w))"
  by (simp add: occurs_at_def prefix_iff_take toLowerCase_take_drop length_toLowerCase)














subsection \<open>The first occurrence and the window\<close>

lemma indexOf_ge: "- 1 \<le> indexOf s w"
  by (induction s) (auto simp: Let_def)


lemma indexOf_none: "indexOf s w = - 1 \<longleftrightarrow> (\<forall>j. \<not> prefix w (drop j s))"
proof (induction s)
  case Nil
  then show ?case by auto
next
  case (Cons c cs)
  have split: "(\<forall>j. \<not> prefix w (drop j (c # cs))) \<longleftrightarrow>
               \<not> prefix w (c # cs) \<and> (\<forall>j. \<not> prefix w (drop j cs))"
  proof
    assume a: "\<forall>j. \<not> prefix w (drop j (c # cs))"
    from a [rule_format, of 0] have "\<not> prefix w (c # cs)" by simp
    moreover have "\<forall>j. \<not> prefix w (drop j cs)"
      using a by (metis drop_Suc_Cons)
    ultimately show "\<not> prefix w (c # cs) \<and> (\<forall>j. \<not> prefix w (drop j cs))" by simp
  next
    assume b: "\<not> prefix w (c # cs) \<and> (\<forall>j. \<not> prefix w (drop j cs))"
    show "\<forall>j. \<not> prefix w (drop j (c # cs))"
    proof
      fix j show "\<not> prefix w (drop j (c # cs))"
        using b by (cases j) simp_all
    qed
  qed
  have ge: "- 1 \<le> indexOf cs w" by (rule indexOf_ge)
  show ?case
    unfolding split using Cons.IH ge by (auto simp: Let_def)
qed

lemma has_occurrence_iff: "has_occurrence q w \<longleftrightarrow> (\<exists>j. occurs_at q w j)"
proof
  assume "has_occurrence q w"
  then show "\<exists>j. occurs_at q w j"
    by (auto simp: has_occurrence_def list_ex_iff)
next
  assume "\<exists>j. occurs_at q w j"
  then obtain j where j: "occurs_at q w j" ..
  show "has_occurrence q w"
  proof (cases "j \<le> length w")
    case True
    with j show ?thesis
      unfolding has_occurrence_def list_ex_iff by (intro bexI [of _ j]) auto
  next
    case False
    then have "drop j w = drop (length w) w" by simp
    with j have "occurs_at q w (length w)" by (simp add: occurs_at_def)
    then show ?thesis
      unfolding has_occurrence_def list_ex_iff by (intro bexI [of _ "length w"]) auto
  qed
qed

lemma indexOf_has_occurrence:
  "indexOf (toLowerCase w) (toLowerCase q) \<noteq> - 1 \<longleftrightarrow> has_occurrence q w"
  by (simp add: indexOf_none has_occurrence_iff occurs_at_prefix)





section \<open>The claims about the search\<close>




text \<open>
  The window is cut from the plain text at an index found in the lowered text. Were that
  index to lie 80 or more beyond the end of the plain text, as it can only where
  lowering has made the text longer, the window would be empty and so would the snippet.
\<close>

lemma snippet_window_beyond_text:
  "int (length plain) + 80 \<le> idx \<Longrightarrow> snippet_window plain idx = []"
  by (simp add: snippet_window_def substring_def Let_def trim_def)

text \<open>
  Two more snippets: a query of the specification, \<open>caf\<close>\<^verbatim>\<open>e\<close> with an accent, against
  a text that has it in capitals, and a text long enough for the window to cut it on
  both sides.
\<close>

lemma snippet_of_cafe:
  "snippet_of (''caf'' @ [CHR 0xE9]) (''Me gusta el CAF'' @ [CHR 0xC9] @ '' con leche'')
     = Some (Snippet (''Me gusta el <mark>CAF'' @ [CHR 0xC9] @ ''</mark> con leche''))"
  by code_simp

lemma snippet_of_long_text:
  "snippet_of ''ana'' (replicate 100 CHR ''x'' @ ''Ana'' @ replicate 100 CHR ''y'')
     = Some (Snippet (replicate 80 CHR ''x'' @ ''<mark>Ana</mark>'' @ replicate 77 CHR ''y''))"
  by code_simp

text \<open>
  Claim C2. For every query, metacharacters or not, the escaped query reads as the
  literal characters of the query and nothing else: no character of it is an operator.
  So the pattern of the highlighting matches a string exactly when the string is the
  query up to case, and the replacement wraps those occurrences, \<open>c++\<close> and \<open>a.b\<close>
  among them, and no others (\<open>axb\<close> is left alone).
\<close>

theorem escapeRegExp_gives_literal_pattern:
  "tokens (escapeRegExp q) = Some (map Lit q)
   \<and> regex_accepts (pattern_source q) x = Some (toLowerCase q = toLowerCase x)
   \<and> replace_marking (pattern_source q) s = Some (mark_all q s)
   \<and> replace_marking (pattern_source ''c++'') ''Uso C++ y a.b; c++ no es c+++''
       = Some ''Uso <mark>C++</mark> y a.b; <mark>c++</mark> no es <mark>c++</mark>+''
   \<and> replace_marking (pattern_source ''a.b'') ''a.b axb A.B''
       = Some ''<mark>a.b</mark> axb <mark>A.B</mark>''"
proof -
  have e1: "mark_all ''c++'' ''Uso C++ y a.b; c++ no es c+++''
            = ''Uso <mark>C++</mark> y a.b; <mark>c++</mark> no es <mark>c++</mark>+''"
    by code_simp
  have e2: "mark_all ''a.b'' ''a.b axb A.B'' = ''<mark>a.b</mark> axb <mark>A.B</mark>''"
    by code_simp
  show ?thesis
    by (simp only: tokens_escapeRegExp regex_accepts_pattern_source
        replace_marking_pattern_source e1 e2 simp_thms)
qed

text \<open>Without the escaping the same queries would not be read as literal characters.\<close>

lemma unescaped_pattern_is_not_literal:
  "replace_marking ''(c++)'' s = None" "replace_marking ''(a.b)'' s = None"
  by (simp_all add: replace_marking_def backslash_def syntax_chars_def literal_group_def)

lemma collect_eq:
  "collect files extract q i texts acc =
     Some (acc @ map (\<lambda>j. \<lparr>file' = file_at files (i + j),
                           snippet = mark_all q (snippet_window (extract (texts ! j))
                              (indexOf (toLowerCase (extract (texts ! j))) (toLowerCase q)))\<rparr>)
                  (matching_pages extract q texts))"
proof (induction "texts" arbitrary: i acc)
  case Nil
  show ?case by (simp add: matching_pages_def)
next
  case (Cons page rest)
  have upt: "[0..<length (page # rest)] = 0 # map Suc [0..<length rest]"
    by (simp add: upt_conv_Cons map_Suc_upt del: upt_Suc)
  have mp: "matching_pages extract q (page # rest) =
            (if page \<noteq> [] \<and> has_occurrence q (extract page) then [0] else [])
              @ map Suc (matching_pages extract q rest)"
    unfolding matching_pages_def upt by (simp add: filter_map comp_def)
  show ?case
  proof (cases "page \<noteq> [] \<and> has_occurrence q (extract page)")
    case True
    then have idx: "indexOf (toLowerCase (extract page)) (toLowerCase q) \<noteq> - 1"
      by (simp add: indexOf_has_occurrence)
    show ?thesis
      using True idx
      by (simp add: mp Cons.IH snippet_of_def replace_marking_pattern_source comp_def)
  next
    case False
    then have "page = [] \<or> indexOf (toLowerCase (extract page)) (toLowerCase q) = - 1"
      using indexOf_has_occurrence [of "extract page" q] by auto
    then show ?thesis
      using False
      by (auto simp: mp Cons.IH snippet_of_def comp_def)
  qed
qed

lemma subseq_map_filter: "subseq (map f (filter P xs)) (map f xs)"
  by (induction xs) auto

text \<open>
  Claim C4. For every list of fetched texts the result list exists and its files are
  those of the matching pages, in the order of the page list and each page once: the
  pages whose fetched text is not the empty string and whose plain text has an
  occurrence of the query, ignoring case. No other page has an entry. When there is one
  text for each configured file, the files of the results are a subsequence of the
  page list.
\<close>

theorem search_results_follow_page_list:
  "\<exists>rs. search_results files extract q texts = Some rs
     \<and> map file' rs = map (file_at files) (matching_pages extract q texts)
     \<and> length rs \<le> length texts
     \<and> (length texts = length files \<longrightarrow> subseq (map file' rs) (map Some files))"
proof -
  let ?rs = "map (\<lambda>j. \<lparr>file' = file_at files j,
                           snippet = mark_all q (snippet_window (extract (texts ! j))
                              (indexOf (toLowerCase (extract (texts ! j))) (toLowerCase q)))\<rparr>)
                  (matching_pages extract q texts)"
  have r: "search_results files extract q texts = Some ?rs"
    using collect_eq [of "files" "extract" "q" 0 "texts" "[]"] by (simp add: search_results_def)
  have f: "map file' ?rs = map (file_at files) (matching_pages extract q texts)"
    by (simp add: comp_def)
  have l: "length ?rs \<le> length texts"
    using length_filter_le [of _ "[0..<length texts]"] by (simp add: matching_pages_def del: length_filter_le)
  have s: "length texts = length files \<longrightarrow> subseq (map file' ?rs) (map Some files)"
  proof
    assume eq: "length texts = length files"
    have "map (file_at files) [0..<length files] = map Some files"
      by (rule nth_equalityI) (simp_all add: file_at_def)
    then have "subseq (map (file_at files) (matching_pages extract q texts)) (map Some files)"
      unfolding matching_pages_def
      using subseq_map_filter [of "file_at files" _ "[0..<length texts]"] eq by simp
    then show "subseq (map file' ?rs) (map Some files)"
      by (simp only: f)
  qed
  from r f l s show ?thesis by blast
qed

text \<open>
  The theorem at three pages: the second was not fetched, the third has no occurrence.
\<close>

theorem search_results_follow_page_list_witness:
  "search_results [''index.html'', ''aficiones.html'', ''contacto.html''] id ''cafe''
      [''Un Cafe solo'', '''', ''Nada''] =
     Some [\<lparr>file' = Some ''index.html'', snippet = ''Un <mark>Cafe</mark> solo''\<rparr>]
   \<and> matching_pages id ''cafe'' [''Un Cafe solo'', '''', ''Nada''] = [0]
   \<and> length [''Un Cafe solo'', '''', ''Nada'']
       = length [''index.html'', ''aficiones.html'', ''contacto.html'']
   \<and> subseq [Some ''index.html'']
        (map Some [''index.html'', ''aficiones.html'', ''contacto.html''])"
proof -
  let ?files = "[''index.html'', ''aficiones.html'', ''contacto.html'']"
  let ?texts = "[''Un Cafe solo'', '''', ''Nada'']"
  have r: "search_results ?files id ''cafe'' ?texts =
           Some [\<lparr>file' = Some ''index.html'', snippet = ''Un <mark>Cafe</mark> solo''\<rparr>]"
    by code_simp
  have m: "matching_pages id ''cafe'' ?texts = [0]"
    by code_simp
  have l: "length ?texts = length ?files" by simp
  from search_results_follow_page_list [of ?files id "''cafe''" ?texts] r l
  have "subseq [Some ''index.html''] (map Some ?files)" by auto
  with r m l show ?thesis by blast
qed

section \<open>The claims about the translations\<close>

lemma split_on_not_Nil: "split_on d s \<noteq> []"
  by (induction s) (auto split: list.splits)

lemma get_prop_truthy:
  "truthy obj \<Longrightarrow>
     (\<exists>v. get_prop inh rd obj k = Inr v) \<or> (\<exists>e. rd obj k = Inl e \<and> get_prop inh rd obj k = Inl e)"
  by (cases obj; cases "rd obj k") simp_all

lemma walk_total:
  "truthy obj \<Longrightarrow>
     (\<exists>v. walk inh rd key obj ks = Inr v \<and> (v = JStr key \<or> truthy v))
     \<or> (\<exists>v k e. rd v k = Inl e \<and> walk inh rd key obj ks = Inl e)"
proof (induction ks arbitrary: obj)
  case Nil
  then show ?case by simp
next
  case (Cons k ks)
  from get_prop_truthy [OF Cons.prems, of inh rd k]
  consider v where "get_prop inh rd obj k = Inr v"
    | e where "rd obj k = Inl e" "get_prop inh rd obj k = Inl e"
    by blast
  then show ?case
  proof cases
    case 1
    show ?thesis
    proof (cases "truthy v")
      case True
      from Cons.IH [OF True] show ?thesis by (simp add: 1 True)
    next
      case False
      then show ?thesis by (simp add: 1)
    qed
  next
    case 2
    then have "rd obj k = Inl e \<and> walk inh rd key obj (k # ks) = Inl e" by simp
    then show ?thesis by blast
  qed
qed

lemma truthy_current_table: "truthy (current_table inh st)"
  by (simp add: current_table_def Let_def)

lemma resolve_truthy: "resolve v ks = Some r \<Longrightarrow> truthy r \<Longrightarrow> truthy v"
  by (cases ks; cases v) simp_all

lemma resolve_Cons:
  "resolve obj (k # ks) = Some v \<Longrightarrow>
     \<exists>kvs v'. obj = JObj kvs \<and> map_of kvs k = Some v' \<and> resolve v' ks = Some v"
  by (cases obj) (auto split: option.splits)

lemma resolve_more_truthy: "resolve v (k # ks) = Some r \<Longrightarrow> truthy v"
  by (cases v) simp_all

lemma walk_resolved_truthy:
  "resolve obj ks = Some v \<Longrightarrow> truthy v \<Longrightarrow> walk inh rd key obj ks = Inr v"
proof (induction ks arbitrary: obj)
  case Nil
  then show ?case by simp
next
  case (Cons k ks)
  from resolve_Cons [OF Cons.prems(1)] obtain kvs v'
    where o: "obj = JObj kvs" "map_of kvs k = Some v'" "resolve v' ks = Some v" by blast
  have "truthy v'" using o(3) Cons.prems(2) by (rule resolve_truthy)
  then show ?case
    using Cons.IH [OF o(3) Cons.prems(2)] o by (simp add: obj_get_def)
qed

lemma walk_resolved_falsy:
  "resolve obj ks = Some v \<Longrightarrow> \<not> truthy v \<Longrightarrow> ks \<noteq> [] \<Longrightarrow>
     walk inh rd key obj ks = Inr (JStr key)"
proof (induction ks arbitrary: obj)
  case Nil
  then show ?case by simp
next
  case (Cons k ks)
  from resolve_Cons [OF Cons.prems(1)] obtain kvs v'
    where o: "obj = JObj kvs" "map_of kvs k = Some v'" "resolve v' ks = Some v" by blast
  show ?case
  proof (cases ks)
    case Nil
    with o Cons.prems(2) show ?thesis by (simp add: obj_get_def)
  next
    case (Cons k' ks')
    then have ne: "ks \<noteq> []" by simp
    show ?thesis
      using Cons.IH [OF o(3) Cons.prems(2) ne] o by (simp add: obj_get_def)
  qed
qed

lemma walk_first_missing:
  "first_missing obj ks = Some (v, k) \<Longrightarrow> truthy obj \<Longrightarrow>
     get_prop inh rd v k = Inr u \<Longrightarrow> \<not> truthy u \<Longrightarrow>
     walk inh rd key obj ks = Inr (JStr key)"
proof (induction ks arbitrary: obj)
  case Nil
  then show ?case by simp
next
  case (Cons k' ks)
  show ?case
  proof (cases "\<exists>kvs. obj = JObj kvs")
    case True
    then obtain kvs where JObj: "obj = JObj kvs" ..
    show ?thesis
    proof (cases "map_of kvs k'")
      case None
      with Cons.prems(1) JObj have "v = obj" "k = k'" by simp_all
      with Cons.prems(3,4) show ?thesis by simp
    next
      case (Some v')
      then have m: "first_missing v' ks = Some (v, k)" using Cons.prems(1) JObj by simp
      show ?thesis
      proof (cases "truthy v'")
        case True
        from Cons.IH [OF m True Cons.prems(3,4)] show ?thesis
          by (simp add: JObj obj_get_def Some True)
      next
        case False
        then show ?thesis by (simp add: JObj obj_get_def Some)
      qed
    qed
  next
    case False
    then have "first_missing obj (k' # ks) = Some (obj, k')" by (cases obj) simp_all
    with Cons.prems(1) have "v = obj" "k = k'" by simp_all
    with Cons.prems(3,4) show ?thesis by simp
  qed
qed

text \<open>
  Claim C5, as amended. For every key, the empty string and dotted paths included, \<open>t\<close>
  never reads a property of \<open>null\<close> or \<open>undefined\<close>: it throws only what the reading
  of a property of a value lent by the host throws. When it returns, it returns the key
  itself or a truthy value, so never \<open>null\<close> or \<open>undefined\<close>. When every segment
  resolves in the table of the current language and the path ends at a non-empty string,
  it returns that string. When a segment is missing, which is when the value the path
  has reached has no own property of that name and the lookup finds nothing under it
  either, it returns exactly the key; and so it does when no table is cached for the
  current language, nothing is inherited under the language code and nothing is
  inherited under the first segment of the key.
\<close>

theorem t_returns_key_or_resolved_value:
  "((\<exists>v. t inh rd st key = Inr v \<and> (v = JStr key \<or> truthy v))
      \<or> (\<exists>v k e. rd v k = Inl e \<and> t inh rd st key = Inl e))
   \<and> (resolve (current_table inh st) (split_on CHR ''.'' key) = Some (JStr s) \<and> s \<noteq> []
        \<longrightarrow> t inh rd st key = Inr (JStr s))
   \<and> (first_missing (current_table inh st) (split_on CHR ''.'' key) = Some (v, k)
        \<and> get_prop inh rd v k = Inr u \<and> \<not> truthy u
        \<longrightarrow> t inh rd st key = Inr (JStr key))
   \<and> (map_of (translation_cache st) (currentLanguage st) = None
        \<and> \<not> truthy (inh (JObj (translation_cache st)) (currentLanguage st))
        \<and> split_on CHR ''.'' key = k0 # ks0 \<and> \<not> truthy (inh (JObj []) k0)
        \<longrightarrow> t inh rd st key = Inr (JStr key))"
proof (intro conjI impI)
  show "(\<exists>v. t inh rd st key = Inr v \<and> (v = JStr key \<or> truthy v))
        \<or> (\<exists>v k e. rd v k = Inl e \<and> t inh rd st key = Inl e)"
    unfolding t_def by (rule walk_total) (rule truthy_current_table)
next
  assume "resolve (current_table inh st) (split_on CHR ''.'' key) = Some (JStr s) \<and> s \<noteq> []"
  then show "t inh rd st key = Inr (JStr s)"
    unfolding t_def by (intro walk_resolved_truthy) simp_all
next
  assume "first_missing (current_table inh st) (split_on CHR ''.'' key) = Some (v, k)
          \<and> get_prop inh rd v k = Inr u \<and> \<not> truthy u"
  then show "t inh rd st key = Inr (JStr key)"
    unfolding t_def using truthy_current_table [of inh st] by (auto intro: walk_first_missing)
next
  assume a: "map_of (translation_cache st) (currentLanguage st) = None
             \<and> \<not> truthy (inh (JObj (translation_cache st)) (currentLanguage st))
             \<and> split_on CHR ''.'' key = k0 # ks0 \<and> \<not> truthy (inh (JObj []) k0)"
  then have table: "current_table inh st = JObj []"
    by (simp add: current_table_def obj_get_def)
  from a show "t inh rd st key = Inr (JStr key)"
    by (simp add: t_def table obj_get_def)
qed

text \<open>
  Claim C10. When the path of a key resolves in the table of the current language and
  resolves to a falsy value, the empty string in particular, \<open>t\<close> returns the key: a
  translation set to the empty string cannot be told from a missing one.
\<close>

theorem t_falsy_translation_gives_key:
  assumes "resolve (current_table inh st) (split_on CHR ''.'' key) = Some v"
    and "\<not> truthy v"
  shows "t inh rd st key = Inr (JStr key)"
  unfolding t_def using assms split_on_not_Nil by (rule walk_resolved_falsy)

lemma spanish_table:
  "current_table no_inherited spanish_tables =
     JObj [(''search'', JObj [(''no_results'', JStr []), (''empty_query'', JStr ''Escribe algo'')])]"
  by (simp add: current_table_def no_inherited_def spanish_tables_def obj_get_def)

lemma split_samples:
  "split_on CHR ''.'' ''search.no_results'' = [''search'', ''no_results'']"
  "split_on CHR ''.'' ''search.empty_query'' = [''search'', ''empty_query'']"
  "split_on CHR ''.'' ''search.title'' = [''search'', ''title'']"
  "split_on CHR ''.'' ''search'' = [''search'']"
  by simp_all

lemma split_host_samples:
  "split_on CHR ''.'' ''constructor'' = [''constructor'']"
  "split_on CHR ''.'' ''constructor.caller'' = [''constructor'', ''caller'']"
  "split_on CHR ''.'' [] = [[]]"
  by simp_all

lemma no_table_yet:
  "current_table lends_constructor (new_I18n french_browser) = JObj []"
  by (simp add: current_table_def lends_constructor_def new_I18n_def obj_get_def
      getStoredLanguage_def french_browser_def)

text \<open>
  The theorem at the Spanish table: a key that resolves to a string, a key whose last
  segment is missing, and a key looked up before any table is cached.
\<close>

theorem t_returns_key_or_resolved_value_witness:
  "resolve (current_table no_inherited spanish_tables) (split_on CHR ''.'' ''search.empty_query'')
     = Some (JStr ''Escribe algo'')
   \<and> ''Escribe algo'' \<noteq> []
   \<and> t no_inherited no_properties spanish_tables ''search.empty_query'' = Inr (JStr ''Escribe algo'')
   \<and> first_missing (current_table no_inherited spanish_tables) (split_on CHR ''.'' ''search.title'')
       = Some (JObj [(''no_results'', JStr []), (''empty_query'', JStr ''Escribe algo'')], ''title'')
   \<and> get_prop no_inherited no_properties
        (JObj [(''no_results'', JStr []), (''empty_query'', JStr ''Escribe algo'')]) ''title''
       = Inr JUndefined
   \<and> \<not> truthy JUndefined
   \<and> t no_inherited no_properties spanish_tables ''search.title'' = Inr (JStr ''search.title'')
   \<and> map_of (translation_cache (new_I18n french_browser))
        (currentLanguage (new_I18n french_browser)) = None
   \<and> split_on CHR ''.'' ''search.title'' = [''search'', ''title'']
   \<and> t no_inherited no_properties (new_I18n french_browser) ''search.title''
       = Inr (JStr ''search.title'')"
proof -
  let ?inner = "JObj [(''no_results'', JStr []), (''empty_query'', JStr ''Escribe algo'')]"
  note shown = t_returns_key_or_resolved_value
  have r1: "resolve (current_table no_inherited spanish_tables)
              (split_on CHR ''.'' ''search.empty_query'') = Some (JStr ''Escribe algo'')"
    by (simp add: spanish_table split_samples)
  have r2: "first_missing (current_table no_inherited spanish_tables)
              (split_on CHR ''.'' ''search.title'') = Some (?inner, ''title'')"
    by (simp add: spanish_table split_samples)
  have g2: "get_prop no_inherited no_properties ?inner ''title'' = Inr JUndefined"
    by (simp add: obj_get_def no_inherited_def)
  have u2: "\<not> truthy JUndefined" by simp
  have lent: "\<And>v k. \<not> truthy (no_inherited v k)"
    by (simp add: no_inherited_def)
  have r3: "map_of (translation_cache (new_I18n french_browser))
              (currentLanguage (new_I18n french_browser)) = None"
    by (simp add: new_I18n_def)
  from shown [of no_inherited no_properties spanish_tables "''search.empty_query''"
      "''Escribe algo''"] r1
  have t1: "t no_inherited no_properties spanish_tables ''search.empty_query''
              = Inr (JStr ''Escribe algo'')"
    by simp
  from shown [where inh = no_inherited and rd = no_properties and st = spanish_tables
      and key = "''search.title''" and v = ?inner and k = "''title''" and u = JUndefined] r2 g2 u2
  have t2: "t no_inherited no_properties spanish_tables ''search.title''
              = Inr (JStr ''search.title'')"
    by blast
  from shown [where inh = no_inherited and rd = no_properties and st = "new_I18n french_browser"
      and key = "''search.title''" and ?k0.0 = "''search''" and ?ks0.0 = "[''title'']"] r3 lent
    split_samples(3)
  have t3: "t no_inherited no_properties (new_I18n french_browser) ''search.title''
              = Inr (JStr ''search.title'')"
    by blast
  from r1 r2 g2 r3 t1 t2 t3 split_samples(3) show ?thesis by simp
qed

text \<open>
  Claim C5 as it was stated promises the resolved translation string whenever every
  segment resolves, the key whenever a segment is missing or the table is absent, and
  in every case a string that is not empty and no exception. At the Spanish table the
  key \<open>search.no_results\<close> resolves to the empty string and \<open>t\<close> returns the key
  instead; the key \<open>search\<close> resolves to a table and \<open>t\<close> returns the table; the
  empty key is returned as it is, an empty string. Before any table is cached, in a host
  whose objects inherit \<open>constructor\<close>, the key \<open>constructor\<close> gives the function
  the host lends and not the key, and the key \<open>constructor.caller\<close> throws.
\<close>

theorem t_empty_translation_counterexample:
  "resolve (current_table no_inherited spanish_tables) (split_on CHR ''.'' ''search.no_results'')
     = Some (JStr [])
   \<and> t no_inherited no_properties spanish_tables ''search.no_results''
       = Inr (JStr ''search.no_results'')
   \<and> t no_inherited no_properties spanish_tables ''search.no_results'' \<noteq> Inr (JStr [])
   \<and> t no_inherited no_properties spanish_tables ''search''
       = Inr (JObj [(''no_results'', JStr []), (''empty_query'', JStr ''Escribe algo'')])
   \<and> t no_inherited no_properties spanish_tables [] = Inr (JStr [])
   \<and> map_of (translation_cache (new_I18n french_browser))
        (currentLanguage (new_I18n french_browser)) = None
   \<and> t lends_constructor restricted_reads (new_I18n french_browser) ''constructor''
       = Inr (JFun ''Object'')
   \<and> t lends_constructor restricted_reads (new_I18n french_browser) ''constructor.caller''
       = Inl (TypeError ''caller and arguments may not be accessed'')"
proof -
  have cached: "map_of (translation_cache (new_I18n french_browser))
                  (currentLanguage (new_I18n french_browser)) = None"
    by (simp add: new_I18n_def)
  have lent: "t lends_constructor restricted_reads (new_I18n french_browser) ''constructor''
                = Inr (JFun ''Object'')"
    by (simp add: t_def no_table_yet split_host_samples obj_get_def lends_constructor_def)
  have thrown: "t lends_constructor restricted_reads (new_I18n french_browser)
                  ''constructor.caller''
                = Inl (TypeError ''caller and arguments may not be accessed'')"
    by (simp add: t_def no_table_yet split_host_samples obj_get_def lends_constructor_def
        restricted_reads_def)
  show ?thesis
    unfolding cached lent thrown
    by (simp add: t_def spanish_table split_samples split_host_samples obj_get_def
        no_inherited_def)
qed

text \<open>The theorem at the translation that is set to the empty string.\<close>

theorem t_falsy_translation_gives_key_witness:
  "resolve (current_table no_inherited spanish_tables) (split_on CHR ''.'' ''search.no_results'')
     = Some (JStr [])
   \<and> \<not> truthy (JStr [])
   \<and> t no_inherited no_properties spanish_tables ''search.no_results''
       = Inr (JStr ''search.no_results'')"
proof -
  have r: "resolve (current_table no_inherited spanish_tables)
             (split_on CHR ''.'' ''search.no_results'') = Some (JStr [])"
    by (simp add: spanish_table split_samples)
  have f: "\<not> truthy (JStr [])" by simp
  from t_falsy_translation_gives_key [OF r f, of no_properties] r f show ?thesis by simp
qed

lemma map_of_update_same: "map_of (AList.update k v al) k = Some v"
  by (simp add: update_conv')

lemma loadTranslations_cached:
  "truthy (obj_get inh (translation_cache st) lang) \<Longrightarrow>
     loadTranslations inh net (br, st) lang = Inr (br, st)"
  by (simp add: loadTranslations_def)

lemma loadTranslations_table_cached:
  "map_of (translation_cache st) lang = Some (JObj table) \<Longrightarrow>
     loadTranslations inh net (br, st) lang = Inr (br, st)"
  by (rule loadTranslations_cached) (simp add: obj_get_def)

lemma fetch_table_failed: "failed_fetch (net (translations_url lang)) \<Longrightarrow> \<exists>e. fetch_table net lang = Inl e"
  by (auto simp: failed_fetch_def fetch_table_def split: fetch_result.splits)

text \<open>
  Claim C6. For every language code \<open>loadTranslations\<close> never rejects. When nothing
  is cached for the code and the fetch fails or the response is not ok, it makes one
  request, logs the error and caches the empty table for the code; when the response is
  ok and parses, it caches what was parsed. When a table is cached for the code it
  returns at once: no request, nothing logged, the cache as it was. So after a call that
  has left a table for the code, the successful one or the empty one, every later call
  is of that kind.
\<close>

theorem loadTranslations_caches_and_never_rejects:
  "(\<exists>w. loadTranslations inh net (br, st) lang = Inr w)
   \<and> (\<not> truthy (obj_get inh (translation_cache st) lang) \<and> failed_fetch (net (translations_url lang))
        \<longrightarrow> (\<exists>e. loadTranslations inh net (br, st) lang =
                   Inr (br\<lparr>requests := requests br @ [translations_url lang],
                           errors_logged := errors_logged br @ [e]\<rparr>,
                        st\<lparr>translation_cache := AList.update lang (JObj []) (translation_cache st)\<rparr>)))
   \<and> (\<not> truthy (obj_get inh (translation_cache st) lang)
        \<and> net (translations_url lang) = Resolved r \<and> ok r \<and> body_json r = Inr v
        \<longrightarrow> loadTranslations inh net (br, st) lang =
              Inr (br\<lparr>requests := requests br @ [translations_url lang]\<rparr>,
                   st\<lparr>translation_cache := AList.update lang v (translation_cache st)\<rparr>))
   \<and> (map_of (translation_cache st) lang = Some (JObj table)
        \<longrightarrow> loadTranslations inh net (br, st) lang = Inr (br, st))
   \<and> (loadTranslations inh net (br, st) lang = Inr (br', st')
        \<and> map_of (translation_cache st') lang = Some (JObj table')
        \<longrightarrow> loadTranslations inh net' (br', st') lang = Inr (br', st'))"
proof (intro conjI impI)
  show "\<exists>w. loadTranslations inh net (br, st) lang = Inr w"
    by (simp add: loadTranslations_def Let_def split: sum.splits)
next
  assume a: "\<not> truthy (obj_get inh (translation_cache st) lang) \<and> failed_fetch (net (translations_url lang))"
  then obtain e where "fetch_table net lang = Inl e"
    using fetch_table_failed by blast
  with a have "loadTranslations inh net (br, st) lang =
                   Inr (br\<lparr>requests := requests br @ [translations_url lang],
                           errors_logged := errors_logged br @ [e]\<rparr>,
                        st\<lparr>translation_cache := AList.update lang (JObj []) (translation_cache st)\<rparr>)"
    by (simp add: loadTranslations_def Let_def)
  then show "\<exists>e. loadTranslations inh net (br, st) lang =
                   Inr (br\<lparr>requests := requests br @ [translations_url lang],
                           errors_logged := errors_logged br @ [e]\<rparr>,
                        st\<lparr>translation_cache := AList.update lang (JObj []) (translation_cache st)\<rparr>)"
    by (rule exI)
next
  assume "\<not> truthy (obj_get inh (translation_cache st) lang)
          \<and> net (translations_url lang) = Resolved r \<and> ok r \<and> body_json r = Inr v"
  then show "loadTranslations inh net (br, st) lang =
              Inr (br\<lparr>requests := requests br @ [translations_url lang]\<rparr>,
                   st\<lparr>translation_cache := AList.update lang v (translation_cache st)\<rparr>)"
    by (simp add: loadTranslations_def fetch_table_def Let_def)
next
  assume "map_of (translation_cache st) lang = Some (JObj table)"
  then show "loadTranslations inh net (br, st) lang = Inr (br, st)"
    by (rule loadTranslations_table_cached)
next
  assume "loadTranslations inh net (br, st) lang = Inr (br', st')
          \<and> map_of (translation_cache st') lang = Some (JObj table')"
  then show "loadTranslations inh net' (br', st') lang = Inr (br', st')"
    by (intro loadTranslations_table_cached) simp
qed

text \<open>
  The theorem at a browser with a French locale and the sample site, which has no
  \<open>i18n/fr.json\<close>: the first call asks once, logs and caches the empty table, the
  second changes nothing. For \<open>es\<close> the site serves a table: it is cached, and the
  second call changes nothing.
\<close>

theorem loadTranslations_caches_and_never_rejects_witness:
  "\<not> truthy (obj_get no_inherited (translation_cache (new_I18n french_browser)) ''fr'')
   \<and> failed_fetch (site (translations_url ''fr''))
   \<and> loadTranslations no_inherited site (french_browser, new_I18n french_browser) ''fr'' =
       Inr (french_browser\<lparr>requests := [''i18n/fr.json''],
                            errors_logged := [Error ''Failed to load fr.json'']\<rparr>,
            (new_I18n french_browser)\<lparr>translation_cache := [(''fr'', JObj [])]\<rparr>)
   \<and> loadTranslations no_inherited site
         (french_browser\<lparr>requests := [''i18n/fr.json''],
                            errors_logged := [Error ''Failed to load fr.json'']\<rparr>,
          (new_I18n french_browser)\<lparr>translation_cache := [(''fr'', JObj [])]\<rparr>) ''fr'' =
       Inr (french_browser\<lparr>requests := [''i18n/fr.json''],
                            errors_logged := [Error ''Failed to load fr.json'']\<rparr>,
            (new_I18n french_browser)\<lparr>translation_cache := [(''fr'', JObj [])]\<rparr>)
   \<and> loadTranslations no_inherited site (french_browser, new_I18n french_browser) ''es'' =
       Inr (french_browser\<lparr>requests := [''i18n/es.json'']\<rparr>,
            (new_I18n french_browser)
              \<lparr>translation_cache := [(''es'', JObj [(''saludo'', JStr ''Hola'')])]\<rparr>)
   \<and> loadTranslations no_inherited site
         (french_browser\<lparr>requests := [''i18n/es.json'']\<rparr>,
          (new_I18n french_browser)
            \<lparr>translation_cache := [(''es'', JObj [(''saludo'', JStr ''Hola'')])]\<rparr>) ''es'' =
       Inr (french_browser\<lparr>requests := [''i18n/es.json'']\<rparr>,
            (new_I18n french_browser)
              \<lparr>translation_cache := [(''es'', JObj [(''saludo'', JStr ''Hola'')])]\<rparr>)"
proof -
  let ?br = "french_browser\<lparr>requests := [''i18n/fr.json''],
                             errors_logged := [Error ''Failed to load fr.json'']\<rparr>"
  let ?st = "(new_I18n french_browser)\<lparr>translation_cache := [(''fr'', JObj [])]\<rparr>"
  let ?br_es = "french_browser\<lparr>requests := [''i18n/es.json'']\<rparr>"
  let ?st_es = "(new_I18n french_browser)
                  \<lparr>translation_cache := [(''es'', JObj [(''saludo'', JStr ''Hola'')])]\<rparr>"
  let ?served = "\<lparr>ok = True, status = 200,
                   body_text = Inr (''{'' @ quoted ''saludo'' @ '':'' @ quoted ''Hola'' @ ''}''),
                   body_json = Inr (JObj [(''saludo'', JStr ''Hola'')])\<rparr>"
  note shown = loadTranslations_caches_and_never_rejects
  have empty: "translation_cache (new_I18n french_browser) = []"
    by (simp add: new_I18n_def)
  have fresh: "requests french_browser = []"
    by (simp add: french_browser_def)
  have h1: "\<not> truthy (obj_get no_inherited (translation_cache (new_I18n french_browser)) ''fr'')"
    by (simp add: empty obj_get_def no_inherited_def)
  have h2: "failed_fetch (site (translations_url ''fr''))"
    by (simp add: failed_fetch_def site_def translations_url_def)
  have first: "loadTranslations no_inherited site (french_browser, new_I18n french_browser) ''fr''
               = Inr (?br, ?st)"
    by (simp add: loadTranslations_def fetch_table_def site_def translations_url_def
        new_I18n_def obj_get_def no_inherited_def french_browser_def Let_def)
  have cached: "map_of (translation_cache ?st) ''fr'' = Some (JObj [])"
    by simp
  from shown [where inh = no_inherited and net = site and br = french_browser
       and st = "new_I18n french_browser" and lang = "''fr''" and br' = ?br and st' = ?st
       and table' = "[]" and net' = site]
    first cached
  have second: "loadTranslations no_inherited site (?br, ?st) ''fr'' = Inr (?br, ?st)"
    by blast
  have h3: "\<not> truthy (obj_get no_inherited (translation_cache (new_I18n french_browser)) ''es'')"
    by (simp add: empty obj_get_def no_inherited_def)
  have h4: "site (translations_url ''es'') = Resolved ?served"
    by (simp add: site_def translations_url_def)
  from shown [where inh = no_inherited and net = site and br = french_browser
       and st = "new_I18n french_browser" and lang = "''es''" and r = ?served
       and v = "JObj [(''saludo'', JStr ''Hola'')]"]
    h3 h4
  have first_es: "loadTranslations no_inherited site (french_browser, new_I18n french_browser) ''es''
                  = Inr (?br_es, ?st_es)"
    by (simp add: empty translations_url_def fresh)
  have cached_es: "map_of (translation_cache ?st_es) ''es'' = Some (JObj [(''saludo'', JStr ''Hola'')])"
    by simp
  from shown [where inh = no_inherited and br = ?br_es and st = ?st_es and lang = "''es''"
       and table = "[(''saludo'', JStr ''Hola'')]" and net = site] cached_es
  have second_es: "loadTranslations no_inherited site (?br_es, ?st_es) ''es'' = Inr (?br_es, ?st_es)"
    by blast
  from h1 h2 first second first_es second_es show ?thesis by simp
qed

section \<open>The claim about the guard\<close>

text \<open>
  Claim C9, as amended. Whatever \<open>search\<close> does, \<open>run\<close> returns: an exception
  thrown anywhere inside \<open>search\<close> is caught and logged with \<open>console.error\<close>, in
  both classes. The \<open>run\<close> of the class exported as a module (lines 438 to 445) then
  replaces the children of the results container, when there is a container, by the
  paragraph with the error message. (The \<open>run\<close> of the class that starts itself,
  lines 310 to 316, returns the page as \<open>search\<close> left it, with the log entry added.)
\<close>

theorem run_catches_and_logs:
  "(\<exists>r. run search pg = Returned r)
   \<and> (\<exists>r. run_module search pg = Returned r)
   \<and> (search pg = Threw e pg' \<longrightarrow>
        run search pg = Returned (pg'\<lparr>console := console pg' @ [(''Buscador error:'', e)]\<rparr>)
        \<and> run_module search pg =
            Returned (pg'\<lparr>console := console pg' @ [(''Buscador error:'', e)],
                         resultsEl := (case resultsEl pg' of
                                         None \<Rightarrow> None
                                       | Some children \<Rightarrow> Some error_paragraph)\<rparr>))"
proof (cases "search pg")
  case (Returned pg'')
  then show ?thesis by (simp add: run_def run_module_def)
next
  case (Threw e' pg'')
  then show ?thesis by (simp add: run_def run_module_def)
qed

text \<open>The theorem at a search that throws on a page with a heading and an old message.\<close>

theorem run_catches_and_logs_witness:
  "failing_search \<lparr>resultsEl = Some [heading, old_output], console = []\<rparr>
     = Threw (SyntaxError ''not a valid selector'')
         \<lparr>resultsEl = Some [heading, old_output], console = []\<rparr>
   \<and> run failing_search \<lparr>resultsEl = Some [heading, old_output], console = []\<rparr>
     = Returned \<lparr>resultsEl = Some [heading, old_output],
                 console = [(''Buscador error:'', SyntaxError ''not a valid selector'')]\<rparr>
   \<and> run_module failing_search \<lparr>resultsEl = Some [heading, old_output], console = []\<rparr>
     = Returned \<lparr>resultsEl = Some [Element ''p'' [] [Text ''Error al buscar. Revisa la consola.'']],
                 console = [(''Buscador error:'', SyntaxError ''not a valid selector'')]\<rparr>"
proof -
  let ?pg = "\<lparr>resultsEl = Some [heading, old_output], console = []\<rparr>"
  have thrown: "failing_search ?pg = Threw (SyntaxError ''not a valid selector'') ?pg"
    by (simp add: failing_search_def)
  from run_catches_and_logs
    [where search = failing_search and pg = ?pg
       and e = "SyntaxError ''not a valid selector''" and pg' = ?pg] thrown
  show ?thesis by (simp add: error_paragraph_def)
qed

text \<open>
  Claim C9 as it was stated has \<open>run\<close> render an error message into the results
  container. After the \<open>run\<close> of lines 310 to 316 the container holds the heading it
  held before and no paragraph; and the \<open>run\<close> of lines 438 to 445, which guards the
  rendering with \<open>if (this.resultsEl)\<close>, renders nothing when there is no container.
\<close>

theorem run_renders_nothing_counterexample:
  "run failing_search \<lparr>resultsEl = Some [heading], console = []\<rparr>
     = Returned \<lparr>resultsEl = Some [heading],
                 console = [(''Buscador error:'', SyntaxError ''not a valid selector'')]\<rparr>
   \<and> first_tagged ''p'' [heading] = None
   \<and> run_module failing_search \<lparr>resultsEl = None, console = []\<rparr>
     = Returned \<lparr>resultsEl = None,
                 console = [(''Buscador error:'', SyntaxError ''not a valid selector'')]\<rparr>"
  by (simp add: run_def run_module_def failing_search_def heading_def)

section \<open>Where the code leaves its own promises\<close>

text \<open>
  Claim C3. \<open>fetchFiles\<close> gives one string for each file, in the order of the files,
  and never rejects; a fetch that fails gives the empty string. But a response with a
  status that is not a success is a resolved fetch, \<open>r.text()\<close> is taken without a
  look at \<open>r.ok\<close>, and the slot holds the body of the error page, not the empty
  string the comment above \<open>fetchFiles\<close> promises for a 404.
\<close>

theorem fetchFiles_keeps_body_of_404:
  "fetchFiles site [''index.html'', ''caida.html'', ''falta.html'']
     = Inr [''<p>Hola</p>'', '''', ''<h1>Not Found</h1>'']"
  by (simp add: fetchFiles_def site_def then_text_def catch_empty_def)

text \<open>What does hold of \<open>fetchFiles\<close>, for every site and every list of files.\<close>

lemma promise_all_caught:
  "promise_all (map (\<lambda>f. catch_empty (g f)) fs) =
     Inr (map (\<lambda>f. case g f of Inl e \<Rightarrow> [] | Inr s \<Rightarrow> s) fs)"
  by (induction fs) (auto simp: catch_empty_def split: sum.splits)

lemma fetchFiles_settles:
  "fetchFiles net files =
     Inr (map (\<lambda>f. case then_text (net f) of Inl e \<Rightarrow> [] | Inr s \<Rightarrow> s) files)"
  unfolding fetchFiles_def by (rule promise_all_caught)

text \<open>
  The two render modes that clear: what is left of the old children is the first
  \<open>h2\<close> among the descendants, if there is one.
\<close>

lemma remove_children_Nil: "remove_children cs = []"
  by (induction cs) simp_all

lemma clearResultsEl_leaves_heading:
  "clearResultsEl (Some cs) = Some (case first_tagged ''h2'' cs of None \<Rightarrow> [] | Some h \<Rightarrow> [h])"
  by (simp add: clearResultsEl_def remove_children_Nil Let_def split: option.splits)

lemma renderNoResults_clears:
  "renderNoResults tr (Some cs) =
     Some ((case first_tagged ''h2'' cs of None \<Rightarrow> [] | Some h \<Rightarrow> [h])
           @ [Element ''p'' [] (text_content (message tr ''search.no_results'' no_results_default))])"
  by (simp add: renderNoResults_def clearResultsEl_leaves_heading)

lemma renderResults_clears:
  "renderResults parse rs (Some cs) =
     Some ((case first_tagged ''h2'' cs of None \<Rightarrow> [] | Some h \<Rightarrow> [h])
           @ map (result_article parse) rs)"
  by (simp add: renderResults_def clearResultsEl_leaves_heading)

text \<open>
  Claim C7. \<open>renderNoResults\<close> and \<open>renderResults\<close> call \<open>clearResultsEl\<close>
  first; \<open>renderNoQuery\<close> does not. On a container that holds the heading and an
  old message it keeps both and appends its own message; called twice it leaves its
  message twice. \<open>renderNoResults\<close> on the same container leaves the heading and the
  new message only.
\<close>

theorem renderNoQuery_keeps_old_output:
  "renderNoQuery None (Some [heading, old_output]) =
     Some [heading, old_output, Element ''p'' [] [Text empty_query_default]]
   \<and> renderNoQuery None (renderNoQuery None (Some [heading])) =
     Some [heading, Element ''p'' [] [Text empty_query_default],
           Element ''p'' [] [Text empty_query_default]]
   \<and> renderNoResults None (Some [heading, old_output]) =
     Some [heading, Element ''p'' [] [Text no_results_default]]"
  by (simp add: renderNoQuery_def renderNoResults_def clearResultsEl_def heading_def
      old_output_def message_def text_content_def empty_query_default_def
      no_results_default_def)

text \<open>
  Claim C8. With no stored preference and the locale \<open>fr-FR\<close> the constructor makes
  \<open>fr\<close> the current language, a code that is not supported and that \<open>setLanguage\<close>
  refuses: the constructor compares neither source with the supported codes.
\<close>

theorem new_I18n_keeps_unsupported_locale:
  "currentLanguage (new_I18n french_browser) = ''fr''
   \<and> ''fr'' \<notin> set (supportedLanguages (new_I18n french_browser))
   \<and> fst (setLanguage (french_browser, new_I18n french_browser) ''fr'') = False"
  by (simp add: new_I18n_def getStoredLanguage_def french_browser_def setLanguage_def)

end
